theory Spec2Isabelle
  imports Complex_Main "HOL-Library.Word" "HOL-Library.Sublist"
begin

section \<open>JavaScript values and strings\<close>

text \<open>
  A JavaScript string is a sequence of UTF-16 code units and \<open>.length\<close> counts them, so a
  string is a list of 16-bit words. \<open>js\<close> embeds an ASCII literal of the source.
\<close>

type_synonym jschar = "16 word"
type_synonym jstring = "jschar list"

definition js :: "string \<Rightarrow> jstring" where
  "js s = map of_char s"

text \<open>
  The values a deserialised JSON payload can hold. Numbers are restricted to integers
  (no fractions, no NaN); nothing below computes with them beyond truthiness and printing.
\<close>

datatype jsval =
    JUndefined
  | JNull
  | JBool bool
  | JNum int
  | JStr jstring
  | JArr "jsval list"
  | JObj "(jstring \<times> jsval) list"

datatype error = TypeError

text \<open>\<open>ToBoolean\<close>: what \<open>!x\<close>, \<open>x ? a : b\<close>, \<open>x || y\<close> and \<open>x && y\<close> test.\<close>

fun truthy :: "jsval \<Rightarrow> bool" where
  "truthy JUndefined = False"
| "truthy JNull = False"
| "truthy (JBool b) = b"
| "truthy (JNum n) = (n \<noteq> 0)"
| "truthy (JStr s) = (s \<noteq> [])"
| "truthy (JArr xs) = True"
| "truthy (JObj kvs) = True"

text \<open>\<open>a || b\<close>: the left operand when it is truthy, the right one otherwise.\<close>

definition js_or :: "jsval \<Rightarrow> jsval \<Rightarrow> jsval" where
  "js_or a b = (if truthy a then a else b)"

text \<open>
  \<open>obj.key\<close> for an object of the payload (its entries as an association list with
  distinct keys): the value stored under the key, \<open>undefined\<close> when there is none.
\<close>

definition field :: "(jstring \<times> jsval) list \<Rightarrow> string \<Rightarrow> jsval" where
  "field kvs k = (case map_of kvs (js k) of Some v \<Rightarrow> v | None \<Rightarrow> JUndefined)"

subsection \<open>Character classes\<close>

text \<open>
  \<open>\s\<close> of a regular expression and the characters \<open>trim()\<close> removes: WhiteSpace and
  LineTerminator of ECMAScript (tab, LF, VT, FF, CR, space, NBSP, U+1680, U+2000..U+200A,
  U+2028, U+2029, U+202F, U+205F, U+3000, U+FEFF).
\<close>

definition is_space :: "jschar \<Rightarrow> bool" where
  "is_space c =
     (c = 0x09 \<or> c = 0x0A \<or> c = 0x0B \<or> c = 0x0C \<or> c = 0x0D \<or> c = 0x20 \<or> c = 0xA0 \<or>
      c = 0x1680 \<or> (0x2000 \<le> c \<and> c \<le> 0x200A) \<or> c = 0x2028 \<or> c = 0x2029 \<or>
      c = 0x202F \<or> c = 0x205F \<or> c = 0x3000 \<or> c = 0xFEFF)"

text \<open>The characters \<open>.\<close> does not match without the \<open>s\<close> flag.\<close>

definition is_line_terminator :: "jschar \<Rightarrow> bool" where
  "is_line_terminator c = (c = 0x0A \<or> c = 0x0D \<or> c = 0x2028 \<or> c = 0x2029)"

text \<open>\<open>\d\<close> is \<open>[0-9]\<close> and \<open>\w\<close> is \<open>[A-Za-z0-9_]\<close>.\<close>

definition is_digit :: "jschar \<Rightarrow> bool" where
  "is_digit c = (0x30 \<le> c \<and> c \<le> 0x39)"

definition is_word :: "jschar \<Rightarrow> bool" where
  "is_word c = ((0x41 \<le> c \<and> c \<le> 0x5A) \<or> (0x61 \<le> c \<and> c \<le> 0x7A) \<or> is_digit c \<or> c = 0x5F)"

text \<open>
  Case folding of the \<open>i\<close> flag, on the ASCII range. The patterns of the source are ASCII,
  and ECMAScript's Canonicalize never folds a code unit from 128 on to one below 128, so
  leaving those code units alone decides every comparison with a pattern character.
\<close>

definition canon :: "jschar \<Rightarrow> jschar" where
  "canon c = (if 0x61 \<le> c \<and> c \<le> 0x7A then c - 0x20 else c)"

definition ci_prefix :: "jstring \<Rightarrow> jstring \<Rightarrow> bool" where
  "ci_prefix p s = prefix (map canon p) (map canon s)"

section \<open>String operations of the runtime\<close>

text \<open>\<open>s.trim()\<close>.\<close>

definition trim :: "jstring \<Rightarrow> jstring" where
  "trim s = rev (dropWhile is_space (rev (dropWhile is_space s)))"

text \<open>
  \<open>s.replace(/re/g, r)\<close> for a pattern that does not look behind itself. The matcher \<open>m\<close>
  tells, for the rest of the string at the current position, how many code units the
  pattern matches there (\<open>None\<close>: no match at this position). The scan goes left to right;
  a match is replaced by \<open>r\<close> and the scan resumes behind it; an empty match is replaced
  and the scan steps over one code unit, as \<open>lastIndex\<close> does.
\<close>

function replaceRegex :: "(jstring \<Rightarrow> nat option) \<Rightarrow> jstring \<Rightarrow> jstring \<Rightarrow> jstring" where
  "replaceRegex m r [] = (case m [] of None \<Rightarrow> [] | Some k \<Rightarrow> r)"
| "replaceRegex m r (c # cs) =
     (case m (c # cs) of
        None \<Rightarrow> c # replaceRegex m r cs
      | Some 0 \<Rightarrow> r @ c # replaceRegex m r cs
      | Some (Suc n) \<Rightarrow> r @ replaceRegex m r (drop n cs))"
  by pat_completeness auto
termination
  by (relation "measure (\<lambda>(m, r, s). length s)") auto

subsection \<open>The patterns of the markup decoder\<close>

text \<open>A literal pattern such as \<open>/&amp;/\<close>.\<close>

definition m_lit :: "jstring \<Rightarrow> jstring \<Rightarrow> nat option" where
  "m_lit p s = (if prefix p s then Some (length p) else None)"

text \<open>The first position at which \<open>p\<close> occurs in \<open>s\<close>, ignoring case.\<close>

fun find_ci :: "jstring \<Rightarrow> jstring \<Rightarrow> nat option" where
  "find_ci p [] = (if p = [] then Some 0 else None)"
| "find_ci p (c # cs) =
     (if ci_prefix p (c # cs) then Some 0 else map_option Suc (find_ci p cs))"

text \<open>
  \<open>/<script[^>]*>.*?<\/script>/gis\<close> and the same for \<open>style\<close>. After the opening name,
  \<open>[^>]*\<close> can only stop in front of the first \<open>>\<close> (a shorter run is followed by a
  character that is not \<open>>\<close>); the lazy \<open>.*?\<close>, which matches line breaks under the \<open>s\<close>
  flag, then runs to the first closing tag. Without a \<open>>\<close> or without a closing tag there
  is no match at this position.
\<close>

definition m_block :: "string \<Rightarrow> jstring \<Rightarrow> nat option" where
  "m_block tag s =
     (let opn = js (''<'' @ tag); cls = js (''</'' @ tag @ ''>'') in
      if ci_prefix opn s then
        (let r1 = drop (length opn) s;
             attrs = takeWhile (\<lambda>c. c \<noteq> 0x3E) r1
         in case drop (length attrs) r1 of
              [] \<Rightarrow> None
            | g # body \<Rightarrow>
                (case find_ci cls body of
                   None \<Rightarrow> None
                 | Some k \<Rightarrow> Some (length opn + length attrs + 1 + k + length cls)))
      else None)"

text \<open>
  \<open>/<[^>]+>/g\<close>: a \<open><\<close>, at least one character that is not \<open>>\<close>, and the \<open>>\<close> that ends
  the run.
\<close>

definition m_tag :: "jstring \<Rightarrow> nat option" where
  "m_tag s =
     (case s of
        [] \<Rightarrow> None
      | c # r \<Rightarrow>
          if c = 0x3C then
            (let run = takeWhile (\<lambda>c. c \<noteq> 0x3E) r in
             if run \<noteq> [] \<and> drop (length run) r \<noteq> [] then Some (length run + 2) else None)
          else None)"

text \<open>\<open>/\s+/g\<close>: a maximal run of white space.\<close>

definition m_ws :: "jstring \<Rightarrow> nat option" where
  "m_ws s = (let run = takeWhile is_space s in if run = [] then None else Some (length run))"

text \<open>\<open>/\r?\n/g\<close>.\<close>

definition m_nl :: "jstring \<Rightarrow> nat option" where
  "m_nl s =
     (if prefix [0x0D, 0x0A] s then Some 2
      else if prefix [0x0A] s then Some 1
      else None)"

section \<open>Markup decoder\<close>

text \<open>
  \<open>EmailUtils.htmlToText\<close> of \<^verbatim>\<open>unipile-email-service.js\<close>. The chain of \<open>replace\<close> calls is
  the list of steps, applied from the first to the last, then \<open>trim\<close>.
\<close>

definition htmlToText_steps :: "(jstring \<Rightarrow> jstring) list" where
  "htmlToText_steps =
     [replaceRegex (m_block ''script'') [],
      replaceRegex (m_block ''style'') [],
      replaceRegex m_tag (js '' ''),
      replaceRegex (m_lit (js ''&nbsp;'')) (js '' ''),
      replaceRegex (m_lit (js ''&amp;'')) (js ''&''),
      replaceRegex (m_lit (js ''&lt;'')) (js ''<''),
      replaceRegex (m_lit (js ''&gt;'')) (js ''>''),
      replaceRegex (m_lit (js ''&quot;'')) [0x22],
      replaceRegex (m_lit (js ''&#39;'')) [0x27],
      replaceRegex (m_lit (js ''&apos;'')) [0x27],
      replaceRegex (m_lit (js ''&#x27;'')) [0x27],
      replaceRegex (m_lit (js ''&#x2F;'')) (js ''/''),
      replaceRegex (m_lit (js ''&#x60;'')) [0x60],
      replaceRegex (m_lit (js ''&#x3D;'')) (js ''=''),
      replaceRegex m_ws (js '' ''),
      replaceRegex m_nl (js '' '')]"

definition htmlToText :: "jsval \<Rightarrow> jstring" where
  "htmlToText html =
     (case html of
        JStr s \<Rightarrow> if s = [] then [] else trim (fold (\<lambda>step. step) htmlToText_steps s)
      | _ \<Rightarrow> [])"

text \<open>\<open>EmailUtils.htmlToText\<close> of \<^verbatim>\<open>email-utils.js\<close>.\<close>

definition htmlToText_utils_steps :: "(jstring \<Rightarrow> jstring) list" where
  "htmlToText_utils_steps =
     [replaceRegex (m_block ''script'') [],
      replaceRegex (m_block ''style'') [],
      replaceRegex m_tag (js '' ''),
      replaceRegex (m_lit (js ''&nbsp;'')) (js '' ''),
      replaceRegex (m_lit (js ''&amp;'')) (js ''&''),
      replaceRegex (m_lit (js ''&lt;'')) (js ''<''),
      replaceRegex (m_lit (js ''&gt;'')) (js ''>''),
      replaceRegex (m_lit (js ''&quot;'')) [0x22],
      replaceRegex (m_lit (js ''&#39;'')) [0x27],
      replaceRegex (m_lit (js ''&apos;'')) [0x27],
      replaceRegex m_ws (js '' '')]"

definition htmlToText_utils :: "jsval \<Rightarrow> jstring" where
  "htmlToText_utils html =
     (case html of
        JStr s \<Rightarrow> if s = [] then [] else trim (fold (\<lambda>step. step) htmlToText_utils_steps s)
      | _ \<Rightarrow> [])"

section \<open>Identity extractor\<close>

record identity =
  email :: jsval
  name :: jsval

text \<open>
  \<open>str.match(/(.*?)\s*<(.+?)>/)\<close>, the two groups of the leftmost match. \<open>bracket_tail\<close> is
  the part of the pattern behind the first group, tried at one position: \<open>\s*\<close> can only
  stop at the end of the white space (a shorter run is followed by white space, not by
  \<open><\<close>), and the lazy \<open>.+?\<close> takes one character that is not a line terminator and then
  runs to the first \<open>>\<close>, failing when a line terminator comes first. The lazy first group
  grows from the start of the match one character at a time and cannot cross a line
  terminator, so the match is at the first position where the tail matches and the first
  group is the text of that line in front of it.
\<close>

definition bracket_tail :: "jstring \<Rightarrow> jstring option" where
  "bracket_tail s =
     (case dropWhile is_space s of
        c # x # r \<Rightarrow>
          if c = 0x3C \<and> \<not> is_line_terminator x then
            (let seg = takeWhile (\<lambda>d. d \<noteq> 0x3E \<and> \<not> is_line_terminator d) r in
             case drop (length seg) r of
               [] \<Rightarrow> None
             | d # rest \<Rightarrow> if d = 0x3E then Some (x # seg) else None)
          else None
      | _ \<Rightarrow> None)"

fun bracket_scan :: "jstring \<Rightarrow> jstring \<Rightarrow> (jstring \<times> jstring) option" where
  "bracket_scan line [] =
     (case bracket_tail [] of Some g2 \<Rightarrow> Some (line, g2) | None \<Rightarrow> None)"
| "bracket_scan line (c # cs) =
     (case bracket_tail (c # cs) of
        Some g2 \<Rightarrow> Some (line, g2)
      | None \<Rightarrow> bracket_scan (if is_line_terminator c then [] else line @ [c]) cs)"

definition bracket_match :: "jstring \<Rightarrow> (jstring \<times> jstring) option" where
  "bracket_match s = bracket_scan [] s"

text \<open>
  \<open>/^[^\s@]+@[^\s@]+\.[^\s@]+$/.test(s)\<close>: a non-empty run without white space and \<open>@\<close>,
  one \<open>@\<close>, and a rest without white space and \<open>@\<close> that has a dot with at least one
  character on each side.
\<close>

definition emailRegex_test :: "jstring \<Rightarrow> bool" where
  "emailRegex_test s =
     (let ok = (\<lambda>c. \<not> is_space c \<and> c \<noteq> 0x40);
          localPart = takeWhile ok s
      in localPart \<noteq> [] \<and>
         (case drop (length localPart) s of
            [] \<Rightarrow> False
          | a # host \<Rightarrow> a = 0x40 \<and> list_all ok host \<and> 0x2E \<in> set (butlast (tl host))))"

text \<open>\<open>s.replace(/"/g, '')\<close>.\<close>

definition strip_quotes :: "jstring \<Rightarrow> jstring" where
  "strip_quotes s = replaceRegex (m_lit [0x22]) [] s"

text \<open>
  \<open>EmailUtils.extractSender\<close> of \<^verbatim>\<open>unipile-email-service.js\<close> (its console output left
  out). An array is an object without any of the keys read here.
\<close>

definition extractSender :: "jsval \<Rightarrow> identity" where
  "extractSender attendeeObj =
     (if \<not> truthy attendeeObj then \<lparr>email = JStr (js ''Unknown''), name = JStr []\<rparr>
      else case attendeeObj of
        JObj kvs \<Rightarrow>
          \<lparr>email = js_or (js_or (js_or (js_or (field kvs ''email'') (field kvs ''identifier''))
                       (field kvs ''address'')) (field kvs ''mail'')) (JStr (js ''Unknown'')),
           name = js_or (js_or (js_or (js_or (js_or (js_or (field kvs ''name'')
                       (field kvs ''display_name'')) (field kvs ''displayName''))
                       (field kvs ''personal'')) (field kvs ''full_name''))
                       (field kvs ''fullName'')) (JStr [])\<rparr>
      | JArr xs \<Rightarrow> \<lparr>email = JStr (js ''Unknown''), name = JStr []\<rparr>
      | JStr s \<Rightarrow>
          (case bracket_match s of
             Some (g1, g2) \<Rightarrow> \<lparr>email = JStr (trim g2), name = JStr (strip_quotes (trim g1))\<rparr>
           | None \<Rightarrow>
               if emailRegex_test (trim s) then \<lparr>email = JStr (trim s), name = JStr []\<rparr>
               else \<lparr>email = JStr (js ''Unknown''), name = JStr (trim s)\<rparr>)
      | _ \<Rightarrow> \<lparr>email = JStr (js ''Unknown''), name = JStr []\<rparr>)"

text \<open>\<open>EmailUtils.extractSender\<close> of \<^verbatim>\<open>email-utils.js\<close>.\<close>

definition extractSender_utils :: "jsval \<Rightarrow> identity" where
  "extractSender_utils fromField =
     (if \<not> truthy fromField then \<lparr>email = JStr (js ''Unknown''), name = JStr []\<rparr>
      else case fromField of
        JStr s \<Rightarrow>
          (case bracket_match s of
             Some (g1, g2) \<Rightarrow> \<lparr>email = JStr (trim g2), name = JStr (strip_quotes (trim g1))\<rparr>
           | None \<Rightarrow> \<lparr>email = JStr (trim s), name = JStr []\<rparr>)
      | JObj kvs \<Rightarrow>
          \<lparr>email = js_or (js_or (js_or (field kvs ''email'') (field kvs ''identifier''))
                       (field kvs ''address'')) (JStr (js ''Unknown'')),
           name = js_or (js_or (js_or (field kvs ''name'') (field kvs ''display_name''))
                       (field kvs ''personal'')) (JStr [])\<rparr>
      | JArr xs \<Rightarrow> \<lparr>email = JStr (js ''Unknown''), name = JStr []\<rparr>
      | _ \<Rightarrow> \<lparr>email = JStr (js ''Unknown''), name = JStr []\<rparr>)"

text \<open>\<open>EmailUtils.extractRecipients\<close>.\<close>

definition extractRecipients :: "jsval \<Rightarrow> identity list" where
  "extractRecipients attendeesArray =
     (case attendeesArray of JArr xs \<Rightarrow> map extractSender xs | _ \<Rightarrow> [])"

section \<open>Content selector\<close>

text \<open>
  \<open>EmailUtils.generatePreview\<close> of \<^verbatim>\<open>unipile-email-service.js\<close> in three parts: the
  content it selects, the cleaning, and the cut. \<open>maxLength\<close> is an integer;
  \<open>substring(0, maxLength)\<close> is only reached when the content is longer than \<open>maxLength\<close> and
  takes a negative bound as 0. The default 200 is what \<open>processEmail\<close> passes.
\<close>

definition selectContent :: "jsval \<Rightarrow> jsval \<Rightarrow> jstring" where
  "selectContent body plainBody =
     (let fromBody = (case body of JStr b \<Rightarrow> if b \<noteq> [] then htmlToText body else [] | _ \<Rightarrow> [])
      in case plainBody of
           JStr p \<Rightarrow> if p \<noteq> [] \<and> length p > 10 then p else fromBody
         | _ \<Rightarrow> fromBody)"

definition cleanContent :: "jstring \<Rightarrow> jstring" where
  "cleanContent content = trim (replaceRegex m_ws (js '' '') (replaceRegex m_nl (js '' '') content))"

definition generatePreview :: "jsval \<Rightarrow> jsval \<Rightarrow> int \<Rightarrow> jstring" where
  "generatePreview body plainBody maxLength =
     (let content = selectContent body plainBody in
      if content = [] then js ''No content available''
      else
        (let cleaned = cleanContent content in
         if int (length cleaned) > maxLength then take (nat maxLength) cleaned @ js ''...''
         else if cleaned = [] then js ''Empty message'' else cleaned))"

text \<open>
  \<open>EmailUtils.generatePreview\<close> of \<^verbatim>\<open>email-utils.js\<close>: the plain body first, without a
  threshold, and no second sentinel.
\<close>

definition selectContent_utils :: "jsval \<Rightarrow> jsval \<Rightarrow> jstring" where
  "selectContent_utils body htmlBody =
     (case body of
        JStr b \<Rightarrow>
          if b \<noteq> [] then b
          else (case htmlBody of JStr h \<Rightarrow> if h \<noteq> [] then htmlToText_utils htmlBody else [] | _ \<Rightarrow> [])
      | _ \<Rightarrow> (case htmlBody of JStr h \<Rightarrow> if h \<noteq> [] then htmlToText_utils htmlBody else [] | _ \<Rightarrow> []))"

definition generatePreview_utils :: "jsval \<Rightarrow> jsval \<Rightarrow> int \<Rightarrow> jstring" where
  "generatePreview_utils body htmlBody maxLength =
     (let content = selectContent_utils body htmlBody in
      if content = [] then js ''No content available''
      else
        (let cleaned = cleanContent content in
         if int (length cleaned) > maxLength then take (nat maxLength) cleaned @ js ''...''
         else cleaned))"

section \<open>Email normalizer\<close>

text \<open>\<open>s.split(' ')\<close>, and more generally the pieces of \<open>s\<close> between the separators.\<close>

fun split_at :: "(jschar \<Rightarrow> bool) \<Rightarrow> jstring \<Rightarrow> jstring list" where
  "split_at sep [] = [[]]"
| "split_at sep (c # cs) =
     (if sep c then [] # split_at sep cs
      else (case split_at sep cs of [] \<Rightarrow> [[c]] | w # ws \<Rightarrow> (c # w) # ws))"

definition count_words :: "jstring \<Rightarrow> nat" where
  "count_words s = length (filter (\<lambda>word. length word > 0) (split_at (\<lambda>c. c = 0x20) s))"

record normalized =
  id_val :: jsval
  subject :: jsval
  date :: jsval
  hasAttachments :: jsval
  isRead :: bool
  messageId :: jsval
  threadId :: jsval
  providerId :: jsval
  from_val :: jsval
  fromName :: jsval
  sender :: identity
  to_val :: "identity list"
  cc :: "identity list"
  bcc :: "identity list"
  replyTo :: "identity list"
  preview :: jstring
  plainTextBody :: jstring
  htmlBody :: jsval
  contentLength :: nat
  folders :: jsval
  folderIds :: jsval
  wordCount :: nat
  estimatedReadTime :: nat
  emailType :: jsval
  origin :: jsval
  role :: jsval
  attachments :: jsval
  debug_originalFromAttendee :: jsval
  debug_availableFields :: "jstring list"
  debug_senderExtractionSuccess :: bool

text \<open>
  \<open>EmailUtils.processEmail\<close> on an object, given as its entries (console output left out).
  \<open>plainTextBody\<close> is whatever truthy value \<open>body_plain\<close> holds; \<open>generatePreview\<close> checks its
  type, but \<open>plainTextBody.split(' ')\<close> is called on it as it is, and a number, a boolean,
  an array or an object of the payload has no method \<open>split\<close>: a TypeError.
\<close>

definition processEmail :: "(jstring \<times> jsval) list \<Rightarrow> error + normalized" where
  "processEmail e =
     (let sndr = extractSender (field e ''from_attendee'');
          toRecipients = extractRecipients (js_or (field e ''to_attendees'') (JArr []));
          ccRecipients = extractRecipients (js_or (field e ''cc_attendees'') (JArr []));
          bccRecipients = extractRecipients (js_or (field e ''bcc_attendees'') (JArr []));
          replyToRecipients = extractRecipients (js_or (field e ''reply_to_attendees'') (JArr []));
          htmlContent = js_or (field e ''body'') (JStr []);
          plainText = js_or (field e ''body_plain'') (JStr (htmlToText htmlContent));
          prev = generatePreview htmlContent plainText 200
      in case plainText of
           JStr txt \<Rightarrow>
             Inr \<lparr>id_val = field e ''id'',
                  subject = js_or (field e ''subject'') (JStr (js ''No Subject'')),
                  date = field e ''date'',
                  hasAttachments = js_or (field e ''has_attachments'') (JBool False),
                  isRead = (if truthy (field e ''read_date'') then True else False),
                  messageId = field e ''message_id'',
                  threadId = field e ''thread_id'',
                  providerId = field e ''provider_id'',
                  from_val = email sndr,
                  fromName = name sndr,
                  sender = sndr,
                  to_val = toRecipients,
                  cc = ccRecipients,
                  bcc = bccRecipients,
                  replyTo = replyToRecipients,
                  preview = prev,
                  plainTextBody = txt,
                  htmlBody = htmlContent,
                  contentLength = length txt,
                  folders = js_or (field e ''folders'') (JArr []),
                  folderIds = js_or (field e ''folderIds'') (JArr []),
                  wordCount = count_words txt,
                  estimatedReadTime = max 1 (nat \<lceil>real (count_words txt) / 200\<rceil>),
                  emailType = field e ''type'',
                  origin = field e ''origin'',
                  role = field e ''role'',
                  attachments = js_or (field e ''attachments'') (JArr []),
                  debug_originalFromAttendee = field e ''from_attendee'',
                  debug_availableFields = map fst e,
                  debug_senderExtractionSuccess = (email sndr \<noteq> JStr (js ''Unknown''))\<rparr>
         | _ \<Rightarrow> Inl TypeError)"

section \<open>Categorizer and key-fact extractor\<close>

subsection \<open>More of the runtime\<close>

text \<open>
  \<open>s.toLowerCase()\<close>. A code unit below 128 is lowered on its own, whatever surrounds it:
  \<open>A\<close> to \<open>Z\<close> become \<open>a\<close> to \<open>z\<close>, the others stay. What replaces a code unit from 128 on
  is decided by the Unicode case tables of the runtime, which are no part of this
  repository, and may be several code units, none, or an ASCII letter, and may depend on
  the rest of the string: U+212A becomes \<open>k\<close>, U+0130 becomes \<open>i\<close> and U+0307, a capital
  sigma depends on what follows it, the two halves of a surrogate pair are lowered
  together. The tables are a parameter \<open>lc\<close>: for the whole string and a position in it,
  the code units that stand in the result for the code unit at that position.
\<close>

type_synonym lower_table = "jstring \<Rightarrow> nat \<Rightarrow> jstring"

definition ascii_lower :: "jschar \<Rightarrow> jschar" where
  "ascii_lower c = (if 0x41 \<le> c \<and> c \<le> 0x5A then c + 0x20 else c)"

fun lower_from :: "lower_table \<Rightarrow> jstring \<Rightarrow> nat \<Rightarrow> jstring \<Rightarrow> jstring" where
  "lower_from lc whole i [] = []"
| "lower_from lc whole i (c # cs) =
     (if c < 0x80 then [ascii_lower c] else lc whole i) @ lower_from lc whole (Suc i) cs"

definition toLowerCase :: "lower_table \<Rightarrow> jstring \<Rightarrow> jstring" where
  "toLowerCase lc s = lower_from lc s 0 s"

text \<open>\<open>s.includes(p)\<close>.\<close>

fun includes_str :: "jstring \<Rightarrow> jstring \<Rightarrow> bool" where
  "includes_str [] p = (p = [])"
| "includes_str (c # cs) p = (prefix p (c # cs) \<or> includes_str cs p)"

text \<open>
  \<open>String(v)\<close>, as a template literal and \<open>RegExp.prototype.test\<close> apply it: a number in
  decimal (integers below \<open>10^21\<close> in magnitude print so), an array as its elements joined
  by commas with \<open>null\<close> and \<open>undefined\<close> printed as nothing, an object of the payload as
  \<open>[object Object]\<close>. An object with a key \<open>toString\<close> of its own hides
  \<open>Object.prototype.toString\<close> behind a value that cannot be called; \<open>valueOf\<close> then
  gives no primitive either, and the conversion throws a TypeError, also from inside an
  array.
\<close>

fun digits_of :: "nat \<Rightarrow> jstring" where
  "digits_of n =
     (if n < 10 then [0x30 + of_nat n] else digits_of (n div 10) @ [0x30 + of_nat (n mod 10)])"

definition number_toString :: "int \<Rightarrow> jstring" where
  "number_toString n = (if n < 0 then js ''-'' @ digits_of (nat (- n)) else digits_of (nat n))"

fun join :: "jstring \<Rightarrow> jstring list \<Rightarrow> jstring" where
  "join sep [] = []"
| "join sep [x] = x"
| "join sep (x # y # r) = x @ sep @ join sep (y # r)"

fun first_error :: "(error + jstring) list \<Rightarrow> error + jstring list" where
  "first_error [] = Inr []"
| "first_error (Inl err # rs) = Inl err"
| "first_error (Inr x # rs) = (case first_error rs of Inl err \<Rightarrow> Inl err | Inr xs \<Rightarrow> Inr (x # xs))"

fun toString :: "jsval \<Rightarrow> error + jstring" where
  "toString JUndefined = Inr (js ''undefined'')"
| "toString JNull = Inr (js ''null'')"
| "toString (JBool b) = Inr (if b then js ''true'' else js ''false'')"
| "toString (JNum n) = Inr (number_toString n)"
| "toString (JStr s) = Inr s"
| "toString (JArr xs) =
     (case first_error (map (\<lambda>x. if x = JUndefined \<or> x = JNull then Inr [] else toString x) xs) of
        Inl err \<Rightarrow> Inl err
      | Inr parts \<Rightarrow> Inr (join (js '','') parts))"
| "toString (JObj kvs) =
     (if map_of kvs (js ''toString'') = None then Inr (js ''[object Object]'') else Inl TypeError)"

text \<open>\<open>re.test(s)\<close> for a pattern that does not look behind itself.\<close>

fun regex_test :: "(jstring \<Rightarrow> nat option) \<Rightarrow> jstring \<Rightarrow> bool" where
  "regex_test m [] = (m [] \<noteq> None)"
| "regex_test m (c # cs) = (m (c # cs) \<noteq> None \<or> regex_test m cs)"

text \<open>
  \<open>s.match(/re/g)\<close>: the matched pieces from left to right, the empty list standing for
  \<open>null\<close> (the callers only test the result for truthiness before using it). The matcher
  also gets the code unit in front of the position, for \<open>\b\<close>.
\<close>

function matchAll ::
  "(jschar option \<Rightarrow> jstring \<Rightarrow> nat option) \<Rightarrow> jschar option \<Rightarrow> jstring \<Rightarrow> jstring list" where
  "matchAll m prior [] = (case m prior [] of None \<Rightarrow> [] | Some k \<Rightarrow> [[]])"
| "matchAll m prior (c # cs) =
     (case m prior (c # cs) of
        None \<Rightarrow> matchAll m (Some c) cs
      | Some 0 \<Rightarrow> [] # matchAll m (Some c) cs
      | Some (Suc n) \<Rightarrow>
          take (Suc n) (c # cs) # matchAll m (Some (last (take (Suc n) (c # cs)))) (drop n cs))"
  by pat_completeness auto
termination
  by (relation "measure (\<lambda>(m, b, s). length s)") auto

text \<open>\<open>/\d{6}/\<close>.\<close>

definition m_digits6 :: "jstring \<Rightarrow> nat option" where
  "m_digits6 s = (if 6 \<le> length s \<and> list_all is_digit (take 6 s) then Some 6 else None)"

text \<open>
  \<open>/\b\d{4,8}\b/g\<close>: in front, the start of the string or a character outside \<open>\w\<close>; then
  the whole run of digits, 4 to 8 of them (a part of the run ends between two digits, where
  there is no word boundary); behind, the end of the string or a character outside \<open>\w\<close>.
\<close>

definition m_code :: "jschar option \<Rightarrow> jstring \<Rightarrow> nat option" where
  "m_code prior s =
     (let run = takeWhile is_digit s; rest = drop (length run) s in
      if (case prior of None \<Rightarrow> True | Some b \<Rightarrow> \<not> is_word b) \<and>
         4 \<le> length run \<and> length run \<le> 8 \<and>
         (case rest of [] \<Rightarrow> True | a # t \<Rightarrow> \<not> is_word a)
      then Some (length run) else None)"

text \<open>\<open>/https?:\/\/[^\s<>"]+/g\<close>.\<close>

definition m_url :: "jschar option \<Rightarrow> jstring \<Rightarrow> nat option" where
  "m_url prior s =
     (let scheme = (if prefix (js ''https://'') s then Some 8
                    else if prefix (js ''http://'') s then Some 7 else None)
      in case scheme of
           None \<Rightarrow> None
         | Some k \<Rightarrow>
             (let run = takeWhile (\<lambda>c. \<not> is_space c \<and> c \<noteq> 0x3C \<and> c \<noteq> 0x3E \<and> c \<noteq> 0x22) (drop k s)
              in if run = [] then None else Some (k + length run)))"

text \<open>\<open>[...new Set(xs)]\<close>: the elements in the order of their first occurrence.\<close>

definition new_Set :: "jstring list \<Rightarrow> jstring list" where
  "new_Set xs = fold (\<lambda>x acc. if x \<in> set acc then acc else acc @ [x]) xs []"

subsection \<open>Categorizer\<close>

text \<open>\<open>(x || '').toLowerCase()\<close>: only a string has the method.\<close>

definition lowerOrEmpty :: "lower_table \<Rightarrow> jsval \<Rightarrow> error + jstring" where
  "lowerOrEmpty lc x =
     (case js_or x (JStr []) of JStr s \<Rightarrow> Inr (toLowerCase lc s) | _ \<Rightarrow> Inl TypeError)"

text \<open>
  \<open>EmailUtils.categorizeEmail\<close> of \<^verbatim>\<open>email-utils.js\<close>. The three lower-case copies
  are made first. \<open>/\d{6}/.test(subject)\<close> is the last operand of the first condition,
  evaluated only when the four \<open>includes\<close> in front of it are false, and converts the
  subject to a string.
\<close>

definition categorizeEmail :: "lower_table \<Rightarrow> jsval \<Rightarrow> jsval \<Rightarrow> jsval \<Rightarrow> error + jstring" where
  "categorizeEmail lc subj sndr body =
     (case lowerOrEmpty lc subj of Inl err \<Rightarrow> Inl err | Inr subjectLower \<Rightarrow>
      case lowerOrEmpty lc sndr of Inl err \<Rightarrow> Inl err | Inr senderLower \<Rightarrow>
      case lowerOrEmpty lc body of Inl err \<Rightarrow> Inl err | Inr bodyLower \<Rightarrow>
        (let later =
           (if includes_str senderLower (js ''instagram'') \<or>
               includes_str senderLower (js ''facebook'') \<or>
               includes_str senderLower (js ''linkedin'') \<or>
               includes_str senderLower (js ''twitter'') then js ''social''
            else if includes_str senderLower (js ''kalvium'') \<or>
               includes_str subjectLower (js ''employee'') \<or>
               includes_str subjectLower (js ''work'') \<or>
               includes_str subjectLower (js ''project'') then js ''work''
            else if includes_str subjectLower (js ''update'') \<or>
               includes_str subjectLower (js ''launch'') \<or>
               includes_str subjectLower (js ''new'') \<or>
               includes_str subjectLower (js ''deal'') then js ''marketing''
            else js ''general'')
         in if includes_str subjectLower (js ''security'') \<or>
               includes_str subjectLower (js ''verification'') \<or>
               includes_str subjectLower (js ''verify'') \<or>
               includes_str subjectLower (js ''code'') then Inr (js ''security'')
            else (case toString subj of
                    Inl err \<Rightarrow> Inl err
                  | Inr printed \<Rightarrow>
                      if regex_test m_digits6 printed then Inr (js ''security'') else Inr later)))"

subsection \<open>Key-fact extractor\<close>

record keyInfo =
  codes :: "jstring list"
  links :: "jstring list"
  dates :: "jstring list"
  actions :: "jstring list"

definition actionWords :: "jstring list" where
  "actionWords =
     [js ''verify'', js ''confirm'', js ''activate'', js ''login'', js ''reset'', js ''update'']"

text \<open>
  \<open>EmailUtils.extractKeyInfo\<close> of \<^verbatim>\<open>email-utils.js\<close>. The template literal converts
  the subject and then the body to strings, which throws for an object with a \<open>toString\<close>
  key of its own; \<open>body.match\<close> is a property read on \<open>null\<close> or \<open>undefined\<close>, or a call of
  something that is not a function on any other value than a string: a TypeError.
\<close>

definition extractKeyInfo :: "lower_table \<Rightarrow> jsval \<Rightarrow> jsval \<Rightarrow> error + keyInfo" where
  "extractKeyInfo lc subj body =
     (case toString subj of Inl err \<Rightarrow> Inl err | Inr subjectText \<Rightarrow>
      case toString body of Inl err \<Rightarrow> Inl err | Inr bodyText \<Rightarrow>
        (let fullText = toLowerCase lc (subjectText @ js '' '' @ bodyText);
             codeMatches = matchAll m_code None fullText
         in case body of
              JStr b \<Rightarrow>
                (let urlMatches = matchAll m_url None b in
                 Inr \<lparr>codes = new_Set codeMatches,
                      links = new_Set (take 3 urlMatches),
                      dates = [],
                      actions = filter (\<lambda>action. includes_str fullText action) actionWords\<rparr>)
            | _ \<Rightarrow> Inl TypeError))"

section \<open>Notions used to state the properties\<close>

text \<open>
  White space in normal form: every white-space character is the space U+0020, and no
  white-space character follows a space. This is what \<open>replace(/\s+/g, ' ')\<close> leaves.
\<close>

fun ws_normal :: "jstring \<Rightarrow> bool" where
  "ws_normal [] = True"
| "ws_normal [c] = (is_space c \<longrightarrow> c = 0x20)"
| "ws_normal (c # d # r) = ((is_space c \<longrightarrow> c = 0x20 \<and> \<not> is_space d) \<and> ws_normal (d # r))"

text \<open>The white-space-delimited non-empty tokens of a string, as the specification counts words.\<close>

definition whitespace_tokens :: "jstring \<Rightarrow> jstring list" where
  "whitespace_tokens s = filter (\<lambda>w. w \<noteq> []) (split_at is_space s)"








text \<open>Strings of ASCII code units only, on which the case tables of the runtime play no part.\<close>

definition is_ascii :: "jstring \<Rightarrow> bool" where
  "is_ascii s = list_all (\<lambda>c. c < 0x80) s"

text \<open>
  Two case tables to evaluate with: one that leaves every code unit from 128 on as it is,
  and one that also lowers the Kelvin sign U+212A to \<open>k\<close> as the runtime does.
\<close>

definition table_keep :: lower_table where
  "table_keep whole i = [whole ! i]"

definition table_kelvin :: lower_table where
  "table_kelvin whole i = (if whole ! i = 0x212A then [0x6B] else [whole ! i])"

text \<open>
  Deduplication that keeps the first occurrence of every element, in order, as the
  specification describes the codes and links of the key facts.
\<close>

fun dedup_first :: "jstring list \<Rightarrow> jstring list" where
  "dedup_first [] = []"
| "dedup_first (x # xs) = x # dedup_first (removeAll x xs)"

section \<open>Verified properties\<close>

subsection \<open>Evaluation on concrete inputs\<close>

lemmas markup_eval = js_def htmlToText_def htmlToText_steps_def htmlToText_utils_def
  htmlToText_utils_steps_def m_lit_def m_block_def m_tag_def m_ws_def m_nl_def trim_def
  is_space_def canon_def ci_prefix_def

lemmas normalizer_eval = processEmail_def Let_def field_def js_or_def extractSender_def
  extractRecipients_def generatePreview_def selectContent_def cleanContent_def count_words_def

subsection \<open>Failure on wrong-typed input\<close>

text \<open>
  C1. The claim is that \<open>processEmail\<close> and \<open>extractKeyInfo\<close> never throw, a non-string
  \<open>body_plain\<close> or a \<open>null\<close>/\<open>undefined\<close> body degrading to defaults. The code throws on
  exactly these inputs: a record whose \<open>body_plain\<close> is the number 5 reaches
  \<open>plainTextBody.split\<close> with a number, and a \<open>null\<close> or \<open>undefined\<close> body reaches
  \<open>body.match\<close>.
\<close>

theorem engine_throws_TypeError:
  "processEmail [(js ''body_plain'', JNum 5)] = Inl TypeError \<and>
   extractKeyInfo lc (JStr (js ''Hi'')) JNull = Inl TypeError \<and>
   extractKeyInfo lc (JStr (js ''Hi'')) JUndefined = Inl TypeError"
  by (simp add: processEmail_def extractKeyInfo_def Let_def field_def js_or_def js_def)

text \<open>
  The inputs on which they throw, exactly: a \<open>body_plain\<close> that is truthy and not a string;
  a body that is not a string, or a subject that cannot be converted to a string.
\<close>

lemma processEmail_throws_iff:
  "processEmail e = Inl TypeError \<longleftrightarrow>
     truthy (field e ''body_plain'') \<and> (\<forall>s. field e ''body_plain'' \<noteq> JStr s)"
  by (cases "field e ''body_plain''") (simp_all add: processEmail_def Let_def js_or_def)

lemma extractKeyInfo_throws_iff:
  "extractKeyInfo lc subj body = Inl TypeError \<longleftrightarrow>
     (\<forall>s. body \<noteq> JStr s) \<or> toString subj = Inl TypeError"
proof (cases "toString subj")
  case (Inl err)
  then show ?thesis by (cases err) (simp add: extractKeyInfo_def)
next
  case (Inr subjectText)
  show ?thesis
  proof (cases "toString body")
    case (Inl err)
    then have "\<forall>s. body \<noteq> JStr s" by auto
    then show ?thesis using Inl \<open>toString subj = Inr subjectText\<close>
      by (cases err) (simp add: extractKeyInfo_def)
  next
    case (Inr bodyText)
    then show ?thesis using \<open>toString subj = Inr subjectText\<close>
      by (cases body) (simp_all add: extractKeyInfo_def Let_def)
  qed
qed

subsection \<open>Entity decoding order\<close>

text \<open>
  C2. The claim is that \<open>&amp;lt;\<close> decodes to the text \<open>&lt;\<close>, never to \<open><\<close>. Both
  versions of \<open>htmlToText\<close> decode \<open>&amp;\<close> before \<open>&lt;\<close>, so the \<open>&lt;\<close> that the first
  replacement produces is decoded again: the result is \<open><\<close>.
\<close>

theorem htmlToText_double_unescape:
  "htmlToText (JStr (js ''&amp;lt;'')) = js ''<'' \<and>
   htmlToText_utils (JStr (js ''&amp;lt;'')) = js ''<'' \<and>
   js ''<'' \<noteq> js ''&lt;''"
  by (simp add: markup_eval)

subsection \<open>Read marker\<close>

text \<open>
  C7, as stated, fails: a read marker that is present and not null but falsy (the empty
  string, the number 0) gives \<open>isRead = false\<close>.
\<close>

theorem isRead_falsy_marker:
  "map_sum id isRead (processEmail [(js ''read_date'', JStr [])]) = Inr False \<and>
   map_sum id isRead (processEmail [(js ''read_date'', JNum 0)]) = Inr False \<and>
   field [(js ''read_date'', JStr [])] ''read_date'' = JStr [] \<and>
   field [(js ''read_date'', JNum 0)] ''read_date'' = JNum 0"
  by (simp add: normalizer_eval markup_eval)

text \<open>
  C7, amended: whenever \<open>processEmail\<close> returns a record, its \<open>isRead\<close> is true if and
  only if the \<open>read_date\<close> field of the raw record is truthy (present and none of
  \<open>null\<close>, \<open>false\<close>, \<open>0\<close>, the empty string).
\<close>

theorem isRead_iff_truthy:
  "processEmail e = Inr r \<Longrightarrow> isRead r = truthy (field e ''read_date'')"
  by (auto simp: processEmail_def Let_def split: jsval.splits if_splits)

theorem isRead_iff_truthy_witness:
  "map_sum id isRead (processEmail [(js ''read_date'', JStr (js ''2024-01-01''))]) = Inr True \<and>
   map_sum id isRead (processEmail [(js ''id'', JStr (js ''m1''))]) = Inr False"
proof -
  let ?e1 = "[(js ''read_date'', JStr (js ''2024-01-01''))]"
  let ?e2 = "[(js ''id'', JStr (js ''m1''))]"
  obtain r1 where r1: "processEmail ?e1 = Inr r1"
    by (simp add: normalizer_eval markup_eval)
  obtain r2 where r2: "processEmail ?e2 = Inr r2"
    by (simp add: normalizer_eval markup_eval)
  have "isRead r1 = truthy (field ?e1 ''read_date'')" using r1 by (rule isRead_iff_truthy)
  moreover have "isRead r2 = truthy (field ?e2 ''read_date'')" using r2 by (rule isRead_iff_truthy)
  ultimately show ?thesis using r1 r2 by (simp add: field_def js_def)
qed

subsection \<open>White space after collapsing and trimming\<close>

lemma includes_str_sublist: "includes_str s p = sublist p s"
  by (induction s) (auto simp: sublist_Cons_right)

lemma replaceRegex_no_match:
  assumes "m [] = None" and "\<And>c cs y. m (c # cs) = Some y \<Longrightarrow> F c" and "\<forall>c\<in>set s. \<not> F c"
  shows "replaceRegex m r s = s"
  using assms(3)
proof (induction s)
  case Nil
  then show ?case by (simp add: assms(1))
next
  case (Cons c cs)
  have "m (c # cs) = None" using assms(2)[of c cs] Cons.prems by (cases "m (c # cs)") auto
  then show ?case using Cons by simp
qed

lemma ws_normal_Cons_nonspace: "\<not> is_space c \<Longrightarrow> ws_normal s \<Longrightarrow> ws_normal (c # s)"
  by (cases s) auto

lemma ws_normal_tl: "ws_normal (c # s) \<Longrightarrow> ws_normal s"
  by (cases s) auto

lemma m_ws_Nil: "m_ws [] = None"
  by (simp add: m_ws_def)

lemma m_ws_nonspace: "\<not> is_space c \<Longrightarrow> m_ws (c # cs) = None"
  by (simp add: m_ws_def)

lemma m_ws_space: "is_space c \<Longrightarrow> m_ws (c # cs) = Some (Suc (length (takeWhile is_space cs)))"
  by (simp add: m_ws_def)

lemma drop_takeWhile_dropWhile: "drop (length (takeWhile P xs)) xs = dropWhile P xs"
  by (simp add: dropWhile_eq_drop)

lemma collapse_ws_normal: "ws_normal (replaceRegex m_ws [0x20] u)"
proof (induction "m_ws" "[0x20] :: jstring" u rule: replaceRegex.induct)
  case 1
  then show ?case by (simp add: m_ws_Nil)
next
  case (2 c cs)
  show ?case
  proof (cases "is_space c")
    case False
    then have "m_ws (c # cs) = None" by (rule m_ws_nonspace)
    with 2 False show ?thesis by (simp add: ws_normal_Cons_nonspace)
  next
    case True
    let ?n = "length (takeWhile is_space cs)"
    have m: "m_ws (c # cs) = Some (Suc ?n)" using True by (rule m_ws_space)
    have ih: "ws_normal (replaceRegex m_ws [0x20] (drop ?n cs))"
      using 2(3)[OF m refl] .
    define rest where "rest = drop ?n cs"
    have d: "rest = dropWhile is_space cs"
      unfolding rest_def by (rule drop_takeWhile_dropWhile)
    have out: "replaceRegex m_ws [0x20] (c # cs) = 0x20 # replaceRegex m_ws [0x20] rest"
      using m by (simp add: js_def rest_def)
    show ?thesis
    proof (cases rest)
      case Nil
      then show ?thesis unfolding out by (simp add: m_ws_Nil)
    next
      case (Cons x xs)
      then have nx: "\<not> is_space x" using d by (metis hd_dropWhile list.sel(1) list.distinct(1))
      then have "m_ws (x # xs) = None" by (rule m_ws_nonspace)
      then show ?thesis unfolding out using Cons ih nx by (simp add: rest_def[symmetric])
    qed
  qed
qed

lemma ws_normal_spaces: "ws_normal s \<Longrightarrow> c \<in> set s \<Longrightarrow> is_space c \<Longrightarrow> c = 0x20"
  by (induction s rule: ws_normal.induct) auto

lemma is_space_32: "is_space 0x20"
  by (simp add: is_space_def)

lemma collapse_id: "ws_normal s \<Longrightarrow> replaceRegex m_ws [0x20] s = s"
proof (induction s rule: ws_normal.induct)
  case 1
  then show ?case by (simp add: m_ws_Nil)
next
  case (2 c)
  then show ?case by (cases "is_space c") (simp_all add: m_ws_def js_def)
next
  case (3 c d r)
  show ?case
  proof (cases "is_space c")
    case False
    then show ?thesis using 3 by (simp add: m_ws_nonspace)
  next
    case True
    with 3 have c: "c = 0x20" and d: "\<not> is_space d" and n: "ws_normal (d # r)" by auto
    have "m_ws (c # d # r) = Some (Suc 0)" using True d by (simp add: m_ws_def)
    then show ?thesis using 3 n c by (simp add: js_def)
  qed
qed

lemma m_nl_Nil: "m_nl [] = None"
  by (simp add: m_nl_def)

lemma m_nl_first: "m_nl (c # cs) = Some y \<Longrightarrow> c = 0x0A \<or> c = 0x0D"
  by (auto simp: m_nl_def split: if_splits)

lemma newline_id: "ws_normal s \<Longrightarrow> replaceRegex m_nl r s = s"
proof (rule replaceRegex_no_match[where F = "\<lambda>c. c = 0x0A \<or> c = 0x0D"])
  show "m_nl [] = None" by (rule m_nl_Nil)
  show "\<And>c cs y. m_nl (c # cs) = Some y \<Longrightarrow> c = 0x0A \<or> c = 0x0D" by (rule m_nl_first)
  assume n: "ws_normal s"
  show "\<forall>c\<in>set s. \<not> (c = 0x0A \<or> c = 0x0D)"
  proof
    fix c assume "c \<in> set s"
    then have "is_space c \<Longrightarrow> c = 0x20" using n ws_normal_spaces by blast
    then show "\<not> (c = 0x0A \<or> c = 0x0D)" by (auto simp: is_space_def)
  qed
qed

lemma ws_normal_dropWhile: "ws_normal s \<Longrightarrow> ws_normal (dropWhile P s)"
  by (induction s) (auto dest: ws_normal_tl)

lemma ws_normal_take: "ws_normal s \<Longrightarrow> ws_normal (take n s)"
proof (induction s arbitrary: n rule: ws_normal.induct)
  case 1 then show ?case by simp
next
  case (2 c) then show ?case by (cases n) auto
next
  case (3 c d r)
  show ?case
  proof (cases n)
    case 0 then show ?thesis by simp
  next
    case (Suc k)
    have "ws_normal (take k (d # r))" using 3 by simp
    then show ?thesis using 3(2) Suc by (cases k) auto
  qed
qed

lemma trim_as_take: "\<exists>n. trim s = take n (dropWhile is_space s)"
proof -
  let ?d = "dropWhile is_space s"
  have "dropWhile is_space (rev ?d) = drop (length (takeWhile is_space (rev ?d))) (rev ?d)"
    by (simp add: dropWhile_eq_drop)
  then have "trim s = take (length ?d - length (takeWhile is_space (rev ?d))) ?d"
    by (simp add: trim_def rev_drop)
  then show ?thesis by blast
qed

lemma ws_normal_trim: "ws_normal s \<Longrightarrow> ws_normal (trim s)"
proof -
  assume n: "ws_normal s"
  obtain k where "trim s = take k (dropWhile is_space s)" using trim_as_take by blast
  then show ?thesis using n by (simp add: ws_normal_take ws_normal_dropWhile)
qed

lemma dropWhile_id: "xs = [] \<or> \<not> P (hd xs) \<Longrightarrow> dropWhile P xs = xs"
  by (cases xs) auto

lemma trim_idem: "trim (trim s) = trim s"
proof -
  define d where "d = dropWhile is_space s"
  define t where "t = dropWhile is_space (rev d)"
  have hd_d: "d = [] \<or> \<not> is_space (hd d)" unfolding d_def by (metis hd_dropWhile)
  have hd_t: "t = [] \<or> \<not> is_space (hd t)" unfolding t_def by (metis hd_dropWhile)
  have "rev t = [] \<or> \<not> is_space (hd (rev t))"
  proof (cases "t = []")
    case True
    then show ?thesis by simp
  next
    case False
    have "t = drop (length (takeWhile is_space (rev d))) (rev d)"
      unfolding t_def by (rule dropWhile_eq_drop)
    then obtain k where k: "t = drop k (rev d)" by blast
    with False have lt: "k < length (rev d)" by auto
    then have "d \<noteq> []" by auto
    have "last t = last (rev d)" unfolding k using lt by (rule last_drop)
    then have "hd (rev t) = hd d" using \<open>d \<noteq> []\<close> by (simp add: hd_rev last_rev)
    then show ?thesis using hd_d \<open>d \<noteq> []\<close> by simp
  qed
  then have a: "dropWhile is_space (rev t) = rev t" by (rule dropWhile_id)
  have b: "dropWhile is_space t = t" using hd_t by (rule dropWhile_id)
  have "trim s = rev t" by (simp add: trim_def d_def t_def)
  then show ?thesis by (simp add: trim_def a b)
qed

subsection \<open>Idempotence of the markup decoder\<close>

lemma js_space: "js '' '' = [0x20]"
  by (simp add: js_def)

lemma m_lit_Nil: "p \<noteq> [] \<Longrightarrow> m_lit p [] = None"
  by (simp add: m_lit_def)

lemma m_lit_first: "p \<noteq> [] \<Longrightarrow> m_lit p (c # cs) = Some y \<Longrightarrow> c = hd p"
  by (cases p) (auto simp: m_lit_def split: if_splits)

lemma m_tag_Nil: "m_tag [] = None"
  by (simp add: m_tag_def)

lemma m_tag_first: "m_tag (c # cs) = Some y \<Longrightarrow> c = 0x3C"
  by (auto simp: m_tag_def split: if_splits)

lemma m_block_Nil: "m_block tag [] = None"
  by (simp add: m_block_def ci_prefix_def js_def)

lemma m_block_first: "m_block tag (c # cs) = Some y \<Longrightarrow> c = 0x3C"
  by (auto simp: m_block_def ci_prefix_def js_def Let_def canon_def split: if_splits)

lemma replace_lit_id: "p \<noteq> [] \<Longrightarrow> hd p \<notin> set s \<Longrightarrow> replaceRegex (m_lit p) r s = s"
  by (rule replaceRegex_no_match[where F = "\<lambda>c. c = hd p"])
     (auto simp: m_lit_Nil dest: m_lit_first)

lemma replace_tag_id: "0x3C \<notin> set s \<Longrightarrow> replaceRegex m_tag r s = s"
  by (rule replaceRegex_no_match[where F = "\<lambda>c. c = 0x3C"])
     (auto simp: m_tag_Nil dest: m_tag_first)

lemma replace_block_id: "0x3C \<notin> set s \<Longrightarrow> replaceRegex (m_block tag) r s = s"
  by (rule replaceRegex_no_match[where F = "\<lambda>c. c = 0x3C"])
     (auto simp: m_block_Nil dest: m_block_first)

lemma replaceRegex_Nil: "m [] = None \<Longrightarrow> replaceRegex m r [] = []"
  by simp

lemma trim_Nil: "trim [] = []"
  by (simp add: trim_def)

lemma htmlToText_shape:
  "\<exists>u. htmlToText v = trim (replaceRegex m_nl [0x20] (replaceRegex m_ws [0x20] u))"
proof (cases "\<exists>s. v = JStr s \<and> s \<noteq> []")
  case True
  then obtain s where "v = JStr s" "s \<noteq> []" by blast
  then show ?thesis by (simp add: htmlToText_def htmlToText_steps_def js_space) blast
next
  case False
  then have "htmlToText v = []" by (cases v) (auto simp: htmlToText_def)
  moreover have "trim (replaceRegex m_nl [0x20] (replaceRegex m_ws [0x20] [])) = []"
    by (simp add: m_ws_Nil m_nl_Nil trim_Nil)
  ultimately show ?thesis by metis
qed

lemma htmlToText_utils_shape:
  "\<exists>u. htmlToText_utils v = trim (replaceRegex m_ws [0x20] u)"
proof (cases "\<exists>s. v = JStr s \<and> s \<noteq> []")
  case True
  then obtain s where "v = JStr s" "s \<noteq> []" by blast
  then show ?thesis by (simp add: htmlToText_utils_def htmlToText_utils_steps_def js_space) blast
next
  case False
  then have "htmlToText_utils v = []" by (cases v) (auto simp: htmlToText_utils_def)
  moreover have "trim (replaceRegex m_ws [0x20] []) = []"
    by (simp add: m_ws_Nil trim_Nil)
  ultimately show ?thesis by metis
qed

lemma htmlToText_ws_normal: "ws_normal (htmlToText v)"
proof -
  obtain u where u: "htmlToText v = trim (replaceRegex m_nl [0x20] (replaceRegex m_ws [0x20] u))"
    using htmlToText_shape by blast
  have "ws_normal (replaceRegex m_ws [0x20] u)" by (rule collapse_ws_normal)
  then show ?thesis unfolding u by (simp add: newline_id ws_normal_trim)
qed

lemma htmlToText_utils_ws_normal: "ws_normal (htmlToText_utils v)"
proof -
  obtain u where u: "htmlToText_utils v = trim (replaceRegex m_ws [0x20] u)"
    using htmlToText_utils_shape by blast
  show ?thesis unfolding u by (simp add: collapse_ws_normal ws_normal_trim)
qed

lemma htmlToText_trimmed: "trim (htmlToText v) = htmlToText v"
  using htmlToText_shape[of v] by (auto simp: trim_idem)

lemma htmlToText_utils_trimmed: "trim (htmlToText_utils v) = htmlToText_utils v"
  using htmlToText_utils_shape[of v] by (auto simp: trim_idem)

lemma htmlToText_fixed:
  assumes "ws_normal t" and "trim t = t" and "0x3C \<notin> set t" and "0x26 \<notin> set t"
  shows "htmlToText (JStr t) = t"
proof (cases "t = []")
  case True
  then show ?thesis by (simp add: htmlToText_def)
next
  case False
  have amp: "\<And>p r. p \<noteq> [] \<Longrightarrow> hd p = 0x26 \<Longrightarrow> replaceRegex (m_lit p) r t = t"
    using assms(4) by (simp add: replace_lit_id)
  have "fold (\<lambda>step. step) htmlToText_steps t = t"
    unfolding htmlToText_steps_def
    by (simp add: replace_block_id replace_tag_id amp js_def collapse_id
        newline_id assms(1) assms(3))
  then show ?thesis using False assms(2) by (simp add: htmlToText_def)
qed

lemma htmlToText_utils_fixed:
  assumes "ws_normal t" and "trim t = t" and "0x3C \<notin> set t" and "0x26 \<notin> set t"
  shows "htmlToText_utils (JStr t) = t"
proof (cases "t = []")
  case True
  then show ?thesis by (simp add: htmlToText_utils_def)
next
  case False
  have amp: "\<And>p r. p \<noteq> [] \<Longrightarrow> hd p = 0x26 \<Longrightarrow> replaceRegex (m_lit p) r t = t"
    using assms(4) by (simp add: replace_lit_id)
  have "fold (\<lambda>step. step) htmlToText_utils_steps t = t"
    unfolding htmlToText_utils_steps_def
    by (simp add: replace_block_id replace_tag_id amp js_def collapse_id
        assms(1) assms(3))
  then show ?thesis using False assms(2) by (simp add: htmlToText_utils_def)
qed

text \<open>
  C3, as stated, fails: decoding produces text that is markup or an entity again, and a
  second pass decodes that too. \<open>&lt;b&gt;\<close> becomes \<open><b>\<close>, which a second pass strips.
\<close>

theorem htmlToText_not_idempotent:
  "htmlToText (JStr (js ''&lt;b&gt;'')) = js ''<b>'' \<and>
   htmlToText (JStr (htmlToText (JStr (js ''&lt;b&gt;'')))) = [] \<and>
   htmlToText (JStr (htmlToText (JStr (js ''&lt;b&gt;'')))) \<noteq> htmlToText (JStr (js ''&lt;b&gt;''))"
  by (simp add: markup_eval)

text \<open>
  C3, amended: for every input whose decoded text contains neither \<open><\<close> nor \<open>&\<close>, decoding
  the decoded text again changes nothing, \<open>htmlToText(htmlToText(s)) = htmlToText(s)\<close>; this
  holds for both versions of \<open>htmlToText\<close>.
\<close>

theorem htmlToText_idempotent_on_plain:
  "(0x3C \<notin> set (htmlToText v) \<and> 0x26 \<notin> set (htmlToText v)
      \<longrightarrow> htmlToText (JStr (htmlToText v)) = htmlToText v) \<and>
   (0x3C \<notin> set (htmlToText_utils v) \<and> 0x26 \<notin> set (htmlToText_utils v)
      \<longrightarrow> htmlToText_utils (JStr (htmlToText_utils v)) = htmlToText_utils v)"
  by (simp add: htmlToText_fixed htmlToText_utils_fixed htmlToText_ws_normal
      htmlToText_utils_ws_normal htmlToText_trimmed htmlToText_utils_trimmed)

theorem htmlToText_idempotent_on_plain_witness:
  "htmlToText (JStr (js ''<p>Hi  <b>there</b></p>'')) = js ''Hi there'' \<and>
   htmlToText (JStr (js ''Hi there'')) = js ''Hi there'' \<and>
   htmlToText_utils (JStr (js ''<p>Hi  <b>there</b></p>'')) = js ''Hi there'' \<and>
   htmlToText_utils (JStr (js ''Hi there'')) = js ''Hi there''"
proof -
  let ?v = "JStr (js ''<p>Hi  <b>there</b></p>'')"
  have a: "htmlToText ?v = js ''Hi there''" by (simp add: markup_eval)
  have b: "htmlToText_utils ?v = js ''Hi there''" by (simp add: markup_eval)
  have c: "0x3C \<notin> set (js ''Hi there'') \<and> 0x26 \<notin> set (js ''Hi there'')"
    by (simp add: js_def)
  show ?thesis
    using htmlToText_idempotent_on_plain[of ?v] c unfolding a b by simp
qed

subsection \<open>The two versions of the markup decoder\<close>

lemma sublist_dropWhile:
  "sublist e s \<Longrightarrow> e \<noteq> [] \<Longrightarrow> \<not> P (hd e) \<Longrightarrow> sublist e (dropWhile P s)"
proof (induction s)
  case Nil
  then show ?case by simp
next
  case (Cons x xs)
  show ?case
  proof (cases "P x")
    case False
    then show ?thesis using Cons.prems by simp
  next
    case True
    have "\<not> prefix e (x # xs)"
      using Cons.prems True by (cases e) auto
    then have "sublist e xs" using Cons.prems by (simp add: sublist_Cons_right)
    then show ?thesis using Cons True by simp
  qed
qed

lemma sublist_trim:
  assumes "sublist e s" and "e \<noteq> []" and "\<not> is_space (hd e)" and "\<not> is_space (last e)"
  shows "sublist e (trim s)"
proof -
  have "sublist e (dropWhile is_space s)"
    using assms(1-3) by (rule sublist_dropWhile)
  then have "sublist (rev e) (rev (dropWhile is_space s))" by (simp add: sublist_rev)
  moreover have "rev e \<noteq> []" using assms(2) by simp
  moreover have "\<not> is_space (hd (rev e))" using assms(2,4) by (simp add: hd_rev)
  ultimately have "sublist (rev e) (dropWhile is_space (rev (dropWhile is_space s)))"
    by (rule sublist_dropWhile)
  then have "sublist (rev (rev e)) (rev (dropWhile is_space (rev (dropWhile is_space s))))"
    by (simp only: sublist_rev)
  then show ?thesis by (simp add: trim_def)
qed

lemma prefix_collapse:
  "prefix e s \<Longrightarrow> \<forall>c\<in>set e. \<not> is_space c \<Longrightarrow> prefix e (replaceRegex m_ws r s)"
proof (induction e arbitrary: s)
  case Nil
  then show ?case by simp
next
  case (Cons x e)
  then obtain s' where s: "s = x # s'" and p: "prefix e s'" by (cases s) auto
  have "m_ws (x # s') = None" using Cons.prems by (simp add: m_ws_nonspace)
  then show ?case using Cons s p by simp
qed

lemma sublist_collapse:
  "sublist e s \<Longrightarrow> e \<noteq> [] \<Longrightarrow> \<forall>c\<in>set e. \<not> is_space c
     \<Longrightarrow> sublist e (replaceRegex m_ws [0x20] s)"
proof (induction "m_ws" "[0x20] :: jstring" s rule: replaceRegex.induct)
  case 1
  then show ?case by simp
next
  case (2 c cs)
  show ?case
  proof (cases "is_space c")
    case False
    then have m: "m_ws (c # cs) = None" by (rule m_ws_nonspace)
    show ?thesis
    proof (cases "prefix e (c # cs)")
      case True
      then have "prefix e (replaceRegex m_ws [0x20] (c # cs))"
        using "2.prems"(3) by (rule prefix_collapse)
      then show ?thesis by (rule prefix_imp_sublist)
    next
      case False
      then have "sublist e cs" using "2.prems" by (simp add: sublist_Cons_right)
      then have "sublist e (replaceRegex m_ws [0x20] cs)"
        using 2(1)[OF m] "2.prems" by simp
      then show ?thesis using m by (simp add: sublist_Cons_right)
    qed
  next
    case True
    let ?n = "length (takeWhile is_space cs)"
    have m: "m_ws (c # cs) = Some (Suc ?n)" using True by (rule m_ws_space)
    have "\<not> prefix e (c # cs)" using True "2.prems" by (cases e) auto
    then have "sublist e cs" using "2.prems" by (simp add: sublist_Cons_right)
    moreover have "\<not> is_space (hd e)" using "2.prems" by (cases e) auto
    ultimately have "sublist e (dropWhile is_space cs)"
      using "2.prems"(2) by (simp add: sublist_dropWhile)
    then have "sublist e (drop ?n cs)" by (simp add: dropWhile_eq_drop)
    then have "sublist e (replaceRegex m_ws [0x20] (drop ?n cs))"
      using 2(3)[OF m refl] "2.prems" by simp
    then show ?thesis using m by (simp add: sublist_Cons_right)
  qed
qed

lemma replace_lit_no_sublist:
  "p \<noteq> [] \<Longrightarrow> \<not> sublist p s \<Longrightarrow> replaceRegex (m_lit p) r s = s"
proof (induction s)
  case Nil
  then show ?case by (simp add: m_lit_Nil)
next
  case (Cons c cs)
  then have "\<not> prefix p (c # cs)" and "\<not> sublist p cs"
    by (auto simp: sublist_Cons_right)
  then show ?case using Cons by (simp add: m_lit_def)
qed

lemma not_sublist_trim_collapse:
  assumes "\<not> sublist e (trim (replaceRegex m_ws [0x20] u))"
    and "e \<noteq> []" and "\<forall>c\<in>set e. \<not> is_space c"
  shows "\<not> sublist e u"
proof
  assume "sublist e u"
  then have "sublist e (replaceRegex m_ws [0x20] u)"
    using assms(2,3) by (rule sublist_collapse)
  moreover have "\<not> is_space (hd e)" "\<not> is_space (last e)" using assms(2,3) by auto
  ultimately have "sublist e (trim (replaceRegex m_ws [0x20] u))"
    using assms(2) by (simp add: sublist_trim)
  then show False using assms(1) by simp
qed

text \<open>
  C10, as stated, fails: the version of \<^verbatim>\<open>email-utils.js\<close> does not decode the four
  hexadecimal entities that the version of \<^verbatim>\<open>unipile-email-service.js\<close> decodes.
\<close>

theorem htmlToText_versions_differ:
  "htmlToText_utils (JStr (js ''&#x27;'')) = js ''&#x27;'' \<and>
   htmlToText (JStr (js ''&#x27;'')) = [0x27] \<and>
   htmlToText_utils (JStr (js ''&#x27;'')) \<noteq> htmlToText (JStr (js ''&#x27;''))"
  by (simp add: markup_eval)

text \<open>
  C10, amended: the two versions return the same string on every input for which the
  result of the \<^verbatim>\<open>email-utils.js\<close> version contains none of \<open>&#x27;\<close>, \<open>&#x2F;\<close>, \<open>&#x60;\<close>,
  \<open>&#x3D;\<close> (in particular on every input that is not a string).
\<close>

theorem htmlToText_versions_agree:
  assumes "\<not> includes_str (htmlToText_utils v) (js ''&#x27;'')"
    and "\<not> includes_str (htmlToText_utils v) (js ''&#x2F;'')"
    and "\<not> includes_str (htmlToText_utils v) (js ''&#x60;'')"
    and "\<not> includes_str (htmlToText_utils v) (js ''&#x3D;'')"
  shows "htmlToText v = htmlToText_utils v"
proof (cases "\<exists>s. v = JStr s \<and> s \<noteq> []")
  case False
  then show ?thesis by (cases v) (auto simp: htmlToText_def htmlToText_utils_def)
next
  case True
  then obtain s where v: "v = JStr s" and s: "s \<noteq> []" by blast
  define u where "u = fold (\<lambda>step. step) (take 10 htmlToText_utils_steps) s"
  have ut: "htmlToText_utils v = trim (replaceRegex m_ws [0x20] u)"
    using s by (simp add: v htmlToText_utils_def htmlToText_utils_steps_def u_def js_space)
  have sv: "htmlToText v =
      trim (replaceRegex m_nl [0x20] (replaceRegex m_ws [0x20]
        (replaceRegex (m_lit (js ''&#x3D;'')) (js ''='')
          (replaceRegex (m_lit (js ''&#x60;'')) [0x60]
            (replaceRegex (m_lit (js ''&#x2F;'')) (js ''/'')
              (replaceRegex (m_lit (js ''&#x27;'')) [0x27] u))))))"
    using s by (simp add: v htmlToText_def htmlToText_steps_def htmlToText_utils_steps_def
        u_def js_space)
  have ent: "\<And>e. \<not> includes_str (htmlToText_utils v) e \<Longrightarrow> e \<noteq> [] \<Longrightarrow> \<forall>c\<in>set e. \<not> is_space c
      \<Longrightarrow> replaceRegex (m_lit e) r u = u" for r
    unfolding ut includes_str_sublist
    by (rule replace_lit_no_sublist) (auto dest: not_sublist_trim_collapse)
  have e1: "replaceRegex (m_lit (js ''&#x27;'')) r u = u" for r
    by (rule ent[OF assms(1)]) (simp_all add: js_def is_space_def)
  have e2: "replaceRegex (m_lit (js ''&#x2F;'')) r u = u" for r
    by (rule ent[OF assms(2)]) (simp_all add: js_def is_space_def)
  have e3: "replaceRegex (m_lit (js ''&#x60;'')) r u = u" for r
    by (rule ent[OF assms(3)]) (simp_all add: js_def is_space_def)
  have e4: "replaceRegex (m_lit (js ''&#x3D;'')) r u = u" for r
    by (rule ent[OF assms(4)]) (simp_all add: js_def is_space_def)
  have "replaceRegex m_nl [0x20] (replaceRegex m_ws [0x20] u) = replaceRegex m_ws [0x20] u"
    by (simp add: newline_id collapse_ws_normal)
  then show ?thesis unfolding sv ut by (simp add: e1 e2 e3 e4)
qed

theorem htmlToText_versions_agree_witness:
  "htmlToText (JStr (js ''<p>a &amp; b</p>'')) = js ''a & b'' \<and>
   htmlToText_utils (JStr (js ''<p>a &amp; b</p>'')) = js ''a & b''"
proof -
  let ?v = "JStr (js ''<p>a &amp; b</p>'')"
  have u: "htmlToText_utils ?v = js ''a & b''" by (simp add: markup_eval)
  have "htmlToText ?v = htmlToText_utils ?v"
    by (rule htmlToText_versions_agree) (simp_all add: u, simp_all add: js_def)
  then show ?thesis using u by simp
qed


subsection \<open>Links of the key facts\<close>

lemma new_Set_fold:
  "fold (\<lambda>x acc. if x \<in> set acc then acc else acc @ [x]) xs acc
     = acc @ dedup_first (filter (\<lambda>x. x \<notin> set acc) xs)"
proof (induction xs arbitrary: acc)
  case Nil
  then show ?case by simp
next
  case (Cons x xs)
  show ?case
  proof (cases "x \<in> set acc")
    case True
    then show ?thesis using Cons by simp
  next
    case False
    have "removeAll x (filter (\<lambda>y. y \<notin> set acc) xs) = filter (\<lambda>y. y \<notin> set (acc @ [x])) xs"
      by (induction xs) auto
    then show ?thesis using False Cons[of "acc @ [x]"] by simp
  qed
qed

lemma new_Set_dedup_first: "new_Set xs = dedup_first xs"
  by (simp add: new_Set_def new_Set_fold)

lemma dedup_first_set: "set (dedup_first xs) = set xs"
  by (induction xs rule: dedup_first.induct) auto

lemma dedup_first_distinct: "distinct (dedup_first xs)"
  by (induction xs rule: dedup_first.induct) (auto simp: dedup_first_set)

lemma dedup_first_length: "length (dedup_first xs) \<le> length xs"
proof (induction xs rule: dedup_first.induct)
  case 1
  then show ?case by simp
next
  case (2 x xs)
  have a: "length (removeAll x xs) \<le> length xs" by (rule length_removeAll_less_eq)
  have "length (dedup_first (removeAll x xs)) \<le> length xs" using 2 a by (rule le_trans)
  then show ?case by simp
qed

text \<open>
  C8, amended: for every string body and every subject that the template literal can
  convert to a string (every string, number, boolean, \<open>null\<close> and \<open>undefined\<close>, and every
  array or object that holds no object with a key \<open>toString\<close> of its own), \<open>links\<close> is the
  list of the first three \<open>http(s)://\<close> tokens of the body (the subject plays no part),
  then deduplicated keeping first occurrences in order; so it has at most three entries,
  all distinct.
\<close>

theorem links_first_three_then_dedup:
  "toString subj = Inr subjectText \<Longrightarrow>
     \<exists>r. extractKeyInfo lc subj (JStr b) = Inr r \<and>
         links r = dedup_first (take 3 (matchAll m_url None b)) \<and>
         distinct (links r) \<and> length (links r) \<le> 3"
proof -
  assume "toString subj = Inr subjectText"
  moreover have "length (dedup_first (take 3 (matchAll m_url None b))) \<le> 3"
    using dedup_first_length[of "take 3 (matchAll m_url None b)"] by simp
  ultimately show ?thesis
    by (simp add: extractKeyInfo_def Let_def new_Set_dedup_first dedup_first_distinct)
qed

lemmas keyinfo_eval = extractKeyInfo_def Let_def new_Set_def m_url_def m_code_def js_def
  is_space_def is_word_def is_digit_def toLowerCase_def ascii_lower_def actionWords_def

text \<open>
  C8, as stated, fails: the code cuts the matches to three before it removes duplicates,
  so the URL sequence \<open>[a, a, b, c]\<close> yields \<open>[a, b]\<close>, not \<open>[a, b, c]\<close>.
\<close>

theorem links_truncate_before_dedup:
  "map_sum id links (extractKeyInfo table_keep (JStr [])
      (JStr (js ''http://a.co http://a.co http://b.co http://c.co'')))
     = Inr [js ''http://a.co'', js ''http://b.co''] \<and>
   matchAll m_url None (js ''http://a.co http://a.co http://b.co http://c.co'')
     = [js ''http://a.co'', js ''http://a.co'', js ''http://b.co'', js ''http://c.co'']"
  by (simp add: keyinfo_eval)

theorem links_first_three_then_dedup_witness:
  "toString (JNum 7) = Inr (js ''7'') \<and>
   map_sum id links (extractKeyInfo table_keep (JNum 7) (JStr (js ''see http://a.co <http://a.co>'')))
     = Inr [js ''http://a.co'']"
proof -
  let ?b = "js ''see http://a.co <http://a.co>''"
  have p: "toString (JNum 7) = Inr (js ''7'')" by (simp add: number_toString_def js_def)
  have m: "matchAll m_url None ?b = [js ''http://a.co'', js ''http://a.co'']"
    by (simp add: m_url_def js_def is_space_def)
  have d: "dedup_first [js ''http://a.co'', js ''http://a.co''] = [js ''http://a.co'']"
    by simp
  obtain r where "extractKeyInfo table_keep (JNum 7) (JStr ?b) = Inr r"
    and "links r = dedup_first (take 3 (matchAll m_url None ?b))"
    using links_first_three_then_dedup[OF p] by blast
  then show ?thesis using p m d by simp
qed

text \<open>
  A subject that cannot be converted: the object \<open>{"toString": 1}\<close> makes the template
  literal throw, whatever the body is.
\<close>

lemma extractKeyInfo_unprintable_subject:
  "extractKeyInfo lc (JObj [(js ''toString'', JNum 1)]) (JStr b) = Inl TypeError"
  by (simp add: extractKeyInfo_def)

subsection \<open>Preview length\<close>

lemma cleanContent_Nil: "cleanContent [] = []"
  by (simp add: cleanContent_def m_nl_def m_ws_def trim_def)

text \<open>
  C5, amended: for every body, plain body and every \<open>maxLength \<ge> 0\<close>, when the cleaned
  selected content is not empty the preview has at most \<open>maxLength + 3\<close> characters, and
  exactly \<open>maxLength + 3\<close> if and only if the cleaned content is longer than \<open>maxLength\<close>;
  when it is empty the preview is a sentinel whatever \<open>maxLength\<close> is (\<open>No content
  available\<close> or \<open>Empty message\<close>; in \<^verbatim>\<open>email-utils.js\<close>, \<open>No content available\<close> or the
  empty string).
\<close>

theorem preview_length_bound:
  "0 \<le> maxLength \<Longrightarrow>
   (cleanContent (selectContent body plainBody) \<noteq> [] \<longrightarrow>
      int (length (generatePreview body plainBody maxLength)) \<le> maxLength + 3 \<and>
      (int (length (generatePreview body plainBody maxLength)) = maxLength + 3
         \<longleftrightarrow> maxLength < int (length (cleanContent (selectContent body plainBody))))) \<and>
   (cleanContent (selectContent body plainBody) = [] \<longrightarrow>
      generatePreview body plainBody maxLength = js ''No content available'' \<or>
      generatePreview body plainBody maxLength = js ''Empty message'') \<and>
   (cleanContent (selectContent_utils plainBody body) \<noteq> [] \<longrightarrow>
      int (length (generatePreview_utils plainBody body maxLength)) \<le> maxLength + 3 \<and>
      (int (length (generatePreview_utils plainBody body maxLength)) = maxLength + 3
         \<longleftrightarrow> maxLength < int (length (cleanContent (selectContent_utils plainBody body))))) \<and>
   (cleanContent (selectContent_utils plainBody body) = [] \<longrightarrow>
      generatePreview_utils plainBody body maxLength = js ''No content available'' \<or>
      generatePreview_utils plainBody body maxLength = [])"
proof -
  assume m: "0 \<le> maxLength"
  have three: "length (js ''...'') = 3" by (simp add: js_def)
  have a: "cleanContent (selectContent body plainBody) \<noteq> [] \<longrightarrow>
      int (length (generatePreview body plainBody maxLength)) \<le> maxLength + 3 \<and>
      (int (length (generatePreview body plainBody maxLength)) = maxLength + 3
         \<longleftrightarrow> maxLength < int (length (cleanContent (selectContent body plainBody))))"
    using m by (auto simp: generatePreview_def Let_def cleanContent_Nil three)
  have b: "cleanContent (selectContent body plainBody) = [] \<longrightarrow>
      generatePreview body plainBody maxLength = js ''No content available'' \<or>
      generatePreview body plainBody maxLength = js ''Empty message''"
    using m by (auto simp: generatePreview_def Let_def)
  have c: "cleanContent (selectContent_utils plainBody body) \<noteq> [] \<longrightarrow>
      int (length (generatePreview_utils plainBody body maxLength)) \<le> maxLength + 3 \<and>
      (int (length (generatePreview_utils plainBody body maxLength)) = maxLength + 3
         \<longleftrightarrow> maxLength < int (length (cleanContent (selectContent_utils plainBody body))))"
    using m by (auto simp: generatePreview_utils_def Let_def cleanContent_Nil three)
  have d: "cleanContent (selectContent_utils plainBody body) = [] \<longrightarrow>
      generatePreview_utils plainBody body maxLength = js ''No content available'' \<or>
      generatePreview_utils plainBody body maxLength = []"
    using m by (auto simp: generatePreview_utils_def Let_def)
  show ?thesis using a b c d by blast
qed

lemmas preview_eval = generatePreview_def generatePreview_utils_def selectContent_def
  selectContent_utils_def cleanContent_def Let_def

text \<open>
  C5, as stated, fails: with no content and \<open>maxLength = 5\<close> the preview is the sentinel of
  20 characters, more than \<open>maxLength + 3\<close>; and a selected content of 14 characters with
  \<open>maxLength = 12\<close> is cleaned to 3 characters and returned whole, although the selected
  content exceeds \<open>maxLength\<close>.
\<close>

theorem preview_sentinel_exceeds_bound:
  "generatePreview (JStr []) (JStr []) 5 = js ''No content available'' \<and>
   length (js ''No content available'') = 20 \<and>
   \<not> int (length (generatePreview (JStr []) (JStr []) 5)) \<le> 5 + 3 \<and>
   selectContent (JStr []) (JStr (js ''a            b'')) = js ''a            b'' \<and>
   length (js ''a            b'') = 14 \<and>
   generatePreview (JStr []) (JStr (js ''a            b'')) 12 = js ''a b''"
  by (simp add: preview_eval markup_eval)

theorem preview_length_bound_witness:
  "generatePreview (JStr []) (JStr (js ''abcdefghijklmnop'')) 5 = js ''abcde...'' \<and>
   int (length (generatePreview (JStr []) (JStr (js ''abcdefghijklmnop'')) 5)) = 5 + 3 \<and>
   cleanContent (selectContent (JStr []) (JStr (js ''abcdefghijklmnop''))) = js ''abcdefghijklmnop'' \<and>
   (5::int) < int (length (js ''abcdefghijklmnop''))"
proof -
  have c: "cleanContent (selectContent (JStr []) (JStr (js ''abcdefghijklmnop''))) = js ''abcdefghijklmnop''"
    by (simp add: preview_eval markup_eval)
  have g: "generatePreview (JStr []) (JStr (js ''abcdefghijklmnop'')) 5 = js ''abcde...''"
    by (simp add: preview_eval markup_eval)
  have n: "js ''abcdefghijklmnop'' \<noteq> []" by (simp add: js_def)
  have l: "(5::int) < int (length (js ''abcdefghijklmnop''))" by (simp add: js_def)
  have "int (length (generatePreview (JStr []) (JStr (js ''abcdefghijklmnop'')) 5)) = 5 + 3"
    using preview_length_bound[of 5 "JStr []" "JStr (js ''abcdefghijklmnop'')"] n l
    unfolding c by simp
  then show ?thesis using c g l by simp
qed

subsection \<open>Word count and reading time\<close>

lemma split_at_cong: "\<forall>c\<in>set s. P c = Q c \<Longrightarrow> split_at P s = split_at Q s"
  by (induction s) auto

lemma ws_normal_split:
  assumes "ws_normal s"
  shows "split_at (\<lambda>c. c = 0x20) s = split_at is_space s"
proof (rule split_at_cong)
  show "\<forall>c\<in>set s. (c = 0x20) = is_space c"
    using assms ws_normal_spaces is_space_32 by blast
qed

lemma count_words_ws_normal: "ws_normal s \<Longrightarrow> count_words s = length (whitespace_tokens s)"
  by (simp add: count_words_def whitespace_tokens_def ws_normal_split)

text \<open>
  What the code computes: whenever \<open>processEmail\<close> returns a record, \<open>wordCount\<close> is the
  number of non-empty pieces of \<open>plainTextBody\<close> between occurrences of the space character
  U+0020, and \<open>estimatedReadTime\<close> is \<open>max(1, ceil(wordCount / 200))\<close>, at least 1. When
  \<open>body_plain\<close> is absent or falsy, the text comes from \<open>htmlToText\<close>, all its white space
  is single spaces, and \<open>wordCount\<close> is the number of white-space-delimited tokens.
\<close>

theorem wordCount_space_tokens:
  "processEmail e = Inr r \<Longrightarrow>
     wordCount r = length (filter (\<lambda>w. w \<noteq> []) (split_at (\<lambda>c. c = 0x20) (plainTextBody r))) \<and>
     estimatedReadTime r = max 1 (nat \<lceil>real (wordCount r) / 200\<rceil>) \<and>
     1 \<le> estimatedReadTime r \<and>
     (\<not> truthy (field e ''body_plain'') \<longrightarrow>
        wordCount r = length (whitespace_tokens (plainTextBody r)))"
proof -
  assume p: "processEmail e = Inr r"
  define ptb where "ptb = js_or (field e ''body_plain'') (JStr (htmlToText (js_or (field e ''body'') (JStr []))))"
  have ex: "\<exists>t. ptb = JStr t"
  proof (rule ccontr)
    assume "\<not> (\<exists>t. ptb = JStr t)"
    then have "processEmail e = Inl TypeError"
      by (cases ptb) (simp_all add: processEmail_def Let_def flip: ptb_def)
    then show False using p by simp
  qed
  then obtain t where t: "ptb = JStr t" by blast
  have "map_sum id plainTextBody (processEmail e) = Inr t"
    using t by (simp add: processEmail_def Let_def flip: ptb_def)
  then have body: "plainTextBody r = t" by (simp add: p)
  have "map_sum id wordCount (processEmail e) = Inr (count_words t)"
    using t by (simp add: processEmail_def Let_def flip: ptb_def)
  then have wc: "wordCount r = count_words t" by (simp add: p)
  have "map_sum id estimatedReadTime (processEmail e) = Inr (max 1 (nat \<lceil>real (count_words t) / 200\<rceil>))"
    using t by (simp add: processEmail_def Let_def flip: ptb_def)
  then have rt: "estimatedReadTime r = max 1 (nat \<lceil>real (count_words t) / 200\<rceil>)" by (simp add: p)
  have "\<not> truthy (field e ''body_plain'') \<Longrightarrow> ws_normal t"
  proof -
    assume "\<not> truthy (field e ''body_plain'')"
    then have "t = htmlToText (js_or (field e ''body'') (JStr []))"
      using t by (simp add: ptb_def js_or_def)
    then show "ws_normal t" by (simp add: htmlToText_ws_normal)
  qed
  then show ?thesis
    using body wc rt by (auto simp: count_words_ws_normal) (simp add: count_words_def)
qed

lemma processEmail_result:
  assumes "js_or (field e ''body_plain'') (JStr (htmlToText (js_or (field e ''body'') (JStr []))))
    = JStr t"
  shows "\<exists>r. processEmail e = Inr r \<and> plainTextBody r = t \<and> wordCount r = count_words t"
  using assms by (simp add: processEmail_def Let_def)

text \<open>
  C6. The claim is that \<open>wordCount\<close> is the number of white-space-delimited non-empty
  tokens of \<open>plainTextBody\<close>, tabs and line breaks included among the separators. A
  \<open>body_plain\<close> of the payload is used as it is, without the white-space normalisation
  that \<open>htmlToText\<close> and \<open>generatePreview\<close> apply, and is split at the space character
  only: for the plain body \<open>hi\nyo\<close> the code counts one word, and there are two tokens.
\<close>

theorem wordCount_newline_not_separator:
  "map_sum id plainTextBody (processEmail [(js ''body_plain'', JStr [0x68, 0x69, 0x0A, 0x79, 0x6F])])
     = Inr [0x68, 0x69, 0x0A, 0x79, 0x6F] \<and>
   map_sum id wordCount (processEmail [(js ''body_plain'', JStr [0x68, 0x69, 0x0A, 0x79, 0x6F])])
     = Inr 1 \<and>
   whitespace_tokens [0x68, 0x69, 0x0A, 0x79, 0x6F] = [js ''hi'', js ''yo'']"
proof -
  let ?t = "[0x68, 0x69, 0x0A, 0x79, 0x6F] :: jstring"
  let ?e = "[(js ''body_plain'', JStr ?t)]"
  have "js_or (field ?e ''body_plain'') (JStr (htmlToText (js_or (field ?e ''body'') (JStr []))))
      = JStr ?t"
    by (simp add: field_def js_or_def)
  then obtain r where "processEmail ?e = Inr r" "plainTextBody r = ?t" "wordCount r = count_words ?t"
    using processEmail_result by blast
  moreover have "count_words ?t = 1" by (simp add: count_words_def)
  moreover have "whitespace_tokens ?t = [js ''hi'', js ''yo'']"
    by (simp add: whitespace_tokens_def is_space_def js_def)
  ultimately show ?thesis by simp
qed

theorem wordCount_space_tokens_witness:
  "map_sum id plainTextBody (processEmail [(js ''body'', JStr (js ''<b>Hi</b> you''))])
     = Inr (js ''Hi you'') \<and>
   map_sum id wordCount (processEmail [(js ''body'', JStr (js ''<b>Hi</b> you''))]) = Inr 2 \<and>
   map_sum id estimatedReadTime (processEmail [(js ''body'', JStr (js ''<b>Hi</b> you''))]) = Inr 1 \<and>
   length (whitespace_tokens (js ''Hi you'')) = 2"
proof -
  let ?e = "[(js ''body'', JStr (js ''<b>Hi</b> you''))]"
  have "js_or (field ?e ''body_plain'') (JStr (htmlToText (js_or (field ?e ''body'') (JStr []))))
      = JStr (js ''Hi you'')"
    by (simp add: field_def js_or_def markup_eval)
  then obtain r where r: "processEmail ?e = Inr r" and b: "plainTextBody r = js ''Hi you''"
    using processEmail_result by blast
  have f: "\<not> truthy (field ?e ''body_plain'')" by (simp add: field_def js_def)
  have w: "length (whitespace_tokens (js ''Hi you'')) = 2"
    by (simp add: whitespace_tokens_def js_def is_space_def)
  have "wordCount r = 2 \<and> estimatedReadTime r = 1"
    using wordCount_space_tokens[OF r] f b w by simp
  then show ?thesis using r b w by simp
qed

subsection \<open>Identity fallback\<close>





lemmas identity_eval = extractSender_def extractSender_utils_def bracket_match_def
  bracket_tail_def emailRegex_test_def strip_quotes_def is_line_terminator_def



subsection \<open>Categorizer priority\<close>

























text \<open>
  Outside ASCII the case tables decide: the runtime lowers the Kelvin sign U+212A to \<open>k\<close>,
  so the subject \<open>wor\<close> followed by U+212A is classified as work; with a table that left
  the sign alone it would be general.
\<close>

lemma categorize_kelvin_sign:
  "categorizeEmail table_kelvin (JStr [0x77, 0x6F, 0x72, 0x212A]) (JStr []) (JStr [])
     = Inr (js ''work'') \<and>
   categorizeEmail table_keep (JStr [0x77, 0x6F, 0x72, 0x212A]) (JStr []) (JStr [])
     = Inr (js ''general'') \<and>
   \<not> is_ascii [0x77, 0x6F, 0x72, 0x212A]"
  by (simp add: categorizeEmail_def lowerOrEmpty_def js_or_def toLowerCase_def ascii_lower_def
      js_def table_kelvin_def table_keep_def m_digits6_def is_ascii_def)

subsection \<open>The examples of the specification\<close>

lemma htmlToText_examples:
  "htmlToText (JStr (js ''<script>alert(1)</script>hello'')) = js ''hello''"
  "htmlToText (JStr (js ''a &amp; b &lt;c&gt;'')) = js ''a & b <c>''"
  "htmlToText JNull = []"
  by (simp_all add: markup_eval)

lemma extractSender_examples:
  "extractSender (JStr (js ''John Doe <john@example.com>''))
     = \<lparr>email = JStr (js ''john@example.com''), name = JStr (js ''John Doe'')\<rparr>"
  "extractSender (JStr (js ''jane@example.com''))
     = \<lparr>email = JStr (js ''jane@example.com''), name = JStr []\<rparr>"
  "extractSender (JObj [(js ''email'', JStr (js ''a@b.com'')), (js ''display_name'', JStr (js ''A B''))])
     = \<lparr>email = JStr (js ''a@b.com''), name = JStr (js ''A B'')\<rparr>"
  "extractSender JNull = \<lparr>email = JStr (js ''Unknown''), name = JStr []\<rparr>"
  by (simp_all add: identity_eval markup_eval field_def js_or_def)

lemma extractKeyInfo_example:
  "extractKeyInfo lc (JStr (js ''Code: 123456'')) (JStr (js ''Visit http://a.co and http://a.co''))
     = Inr \<lparr>codes = [js ''123456''], links = [js ''http://a.co''], dates = [], actions = []\<rparr>"
  by (simp add: keyinfo_eval)

end
